theory Spec2Isabelle
  imports Main
begin

section \<open>Data model of \<^verbatim>\<open>test_mouse_events.py\<close>\<close>

text \<open>
  The mock Qt classes of the test script. Coordinates are Python integers (the script
  builds every \<^verbatim>\<open>QPoint\<close>, position and size from integer literals), so they are
  \<^typ>\<open>int\<close>: unbounded, with no overflow and no rounding.

  \<^verbatim>\<open>QPoint\<close> has the attributes \<^verbatim>\<open>x\<close> and \<^verbatim>\<open>y\<close>; the selectors are
  called \<open>pt_x\<close> and \<open>pt_y\<close> here, and those of \<^verbatim>\<open>QRect\<close> \<open>rect_x\<close>,
  \<open>rect_y\<close>, \<open>width\<close>, \<open>height\<close>.
\<close>

record QPoint =
  pt_x :: int
  pt_y :: int

record QRect =
  rect_x :: int
  rect_y :: int
  width :: int
  height :: int

text \<open>
  A \<^verbatim>\<open>MockButton\<close> object. \<^verbatim>\<open>size\<close> and \<^verbatim>\<open>parent_\<close> are renamed
  \<open>btn_size\<close> and \<open>btn_parent\<close>. Objects are referred to by reference: a reference is
  a natural number, and \<open>btn_parent\<close> holds the reference of the parent widget, or
  \<open>None\<close>.
\<close>

type_synonym ref = nat

record MockButton =
  name :: string
  parent_pos :: "int \<times> int"
  btn_size :: "int \<times> int"
  btn_parent :: "ref option"
  selected :: bool

text \<open>
  A call of \<^verbatim>\<open>setSelectionStatus\<close> on a button is the side effect that the hover
  logic emits: \<open>SetSelectionStatus b True\<close> is a select of the button \<open>b\<close>,
  \<open>SetSelectionStatus b False\<close> a deselect.
\<close>

datatype call = SetSelectionStatus ref bool

text \<open>
  The state the script works on: the two attributes of the \<^verbatim>\<open>MockHotbox\<close> object
  (\<open>hoveredButton\<close>, a reference or \<open>None\<close>, and \<open>buttons\<close>, a Python list of
  references, in which the same object may occur more than once), the store \<open>objs\<close>
  that gives the \<^verbatim>\<open>MockButton\<close> object behind every reference, and the list
  \<open>calls\<close> of the \<^verbatim>\<open>setSelectionStatus\<close> calls made so far, oldest first. The
  diagnostic lines that the script prints are not part of the state.
\<close>

record state =
  hoveredButton :: "ref option"
  buttons :: "ref list"
  objs :: "ref \<Rightarrow> MockButton"
  calls :: "call list"

section \<open>The operations\<close>

text \<open>\<^verbatim>\<open>QRect.contains\<close>: the chained comparisons \<^verbatim>\<open>a <= b <= c\<close> are conjunctions.\<close>

definition contains :: "QRect \<Rightarrow> QPoint \<Rightarrow> bool" where
  "contains r point \<longleftrightarrow>
     (rect_x r \<le> pt_x point \<and> pt_x point \<le> rect_x r + width r) \<and>
     (rect_y r \<le> pt_y point \<and> pt_y point \<le> rect_y r + height r)"

text \<open>\<^verbatim>\<open>MockButton.rect\<close>: the rectangle of the button in its own coordinate system.\<close>

definition rect :: "MockButton \<Rightarrow> QRect" where
  "rect b = \<lparr>rect_x = 0, rect_y = 0, width = fst (btn_size b), height = snd (btn_size b)\<rparr>"

text \<open>
  \<^verbatim>\<open>MockButton.mapFrom\<close>: the \<^verbatim>\<open>source\<close> widget is an argument that the body
  does not read.
\<close>

definition mapFrom :: "MockButton \<Rightarrow> 'w \<Rightarrow> QPoint \<Rightarrow> QPoint" where
  "mapFrom b source pos =
     \<lparr>pt_x = pt_x pos - fst (parent_pos b), pt_y = pt_y pos - snd (parent_pos b)\<rparr>"

text \<open>
  \<^verbatim>\<open>MockButton.setSelectionStatus\<close> on the object behind the reference \<open>b\<close>: it
  assigns the flag and is recorded in \<open>calls\<close>.
\<close>

definition setSelectionStatus :: "ref \<Rightarrow> bool \<Rightarrow> state \<Rightarrow> state" where
  "setSelectionStatus b v s =
     s\<lparr>objs := (objs s)(b := (objs s b)\<lparr>selected := v\<rparr>),
       calls := calls s @ [SetSelectionStatus b v]\<rparr>"

text \<open>
  \<^verbatim>\<open>isinstance(b, MockButton)\<close>: the store holds \<^verbatim>\<open>MockButton\<close> objects only, so
  the test holds of every object.
\<close>

definition isinstance_MockButton :: "MockButton \<Rightarrow> bool" where
  "isinstance_MockButton b = True"

text \<open>
  The \<^verbatim>\<open>for button in buttons\<close> loop of \<^verbatim>\<open>_findButtonAtPosition\<close>, which returns
  at the first button whose rectangle contains the mapped position, and \<open>None\<close> after
  the last one.
\<close>

fun find_loop :: "state \<Rightarrow> QPoint \<Rightarrow> ref list \<Rightarrow> ref option" where
  "find_loop s pos [] = None"
| "find_loop s pos (button # rest) =
     (let button_local_pos = mapFrom (objs s button) s pos;
          button_rect = rect (objs s button)
      in if contains button_rect button_local_pos then Some button
         else find_loop s pos rest)"

text \<open>\<^verbatim>\<open>MockHotbox._findButtonAtPosition\<close> (a name cannot start with an underscore).\<close>

definition findButtonAtPosition :: "state \<Rightarrow> QPoint \<Rightarrow> ref option" where
  "findButtonAtPosition s pos =
     find_loop s pos (filter (\<lambda>b. isinstance_MockButton (objs s b)) (buttons s))"

text \<open>
  The loop under \<^verbatim>\<open># Clear ALL buttons\<close>: it reads the flag of each element of the
  list in the state that the earlier iterations have left.
\<close>

fun clear_loop :: "ref list \<Rightarrow> state \<Rightarrow> state" where
  "clear_loop [] s = s"
| "clear_loop (btn # rest) s =
     clear_loop rest (if selected (objs s btn) then setSelectionStatus btn False s else s)"

text \<open>
  \<^verbatim>\<open>MockHotbox.simulate_mouseMove\<close>. \<^verbatim>\<open>MockButton\<close> defines no \<^verbatim>\<open>__eq__\<close>, so
  \<^verbatim>\<open>!=\<close> compares references; it defines neither \<^verbatim>\<open>__bool__\<close> nor
  \<^verbatim>\<open>__len__\<close>, so \<^verbatim>\<open>if button_under_cursor\<close> holds exactly when the value is not
  \<^verbatim>\<open>None\<close>.
\<close>

definition simulate_mouseMove :: "state \<Rightarrow> QPoint \<Rightarrow> state" where
  "simulate_mouseMove s pos =
     (let button_under_cursor = findButtonAtPosition s pos;
          old_button = hoveredButton s
      in if button_under_cursor \<noteq> old_button then
           (let s1 = clear_loop (buttons s) s;
                s2 = s1\<lparr>hoveredButton := button_under_cursor\<rparr>
            in case button_under_cursor of
                 None \<Rightarrow> s2
               | Some b \<Rightarrow> setSelectionStatus b True s2)
         else s)"

text \<open>
  The driver loop of \<^verbatim>\<open>test_rapid_movement\<close>:
  \<^verbatim>\<open>for pos in positions: hotbox.simulate_mouseMove(pos)\<close>.
\<close>

fun simulate_moves :: "state \<Rightarrow> QPoint list \<Rightarrow> state" where
  "simulate_moves s [] = s"
| "simulate_moves s (pos # positions) = simulate_moves (simulate_mouseMove s pos) positions"

text \<open>
  The buttons of the list whose flag is set, in list order; the test counts them with
  \<^verbatim>\<open>sum(1 for btn in hotbox.buttons if btn.selected)\<close>.
\<close>

definition selected_buttons :: "state \<Rightarrow> ref list" where
  "selected_buttons s = filter (\<lambda>btn. selected (objs s btn)) (buttons s)"

text \<open>
  \<^verbatim>\<open>MockButton.__init__\<close> and \<^verbatim>\<open>MockHotbox.__init__\<close>: a new button is not
  selected, a new hotbox hovers over nothing.
\<close>

definition MockButton_init :: "string \<Rightarrow> int \<times> int \<Rightarrow> int \<times> int \<Rightarrow> ref option \<Rightarrow> MockButton" where
  "MockButton_init n pos sz p =
     \<lparr>name = n, parent_pos = pos, btn_size = sz, btn_parent = p, selected = False\<rparr>"

section \<open>Notions of the specification\<close>

text \<open>
  The button behind the reference \<open>b\<close> is under the position \<open>pos\<close>: the test that
  the loop of \<^verbatim>\<open>_findButtonAtPosition\<close> makes for it.
\<close>

definition button_under :: "state \<Rightarrow> QPoint \<Rightarrow> ref \<Rightarrow> bool" where
  "button_under s pos b \<longleftrightarrow> contains (rect (objs s b)) (mapFrom (objs s b) s pos)"

text \<open>
  The initial state of a container: no hovered reference, and the flag of every button
  of the collection clear.
\<close>

definition initial :: "state \<Rightarrow> bool" where
  "initial s \<longleftrightarrow> hoveredButton s = None \<and> (\<forall>b \<in> set (buttons s). \<not> selected (objs s b))"

text \<open>
  The single-selection invariant: at most one button of the collection has its flag
  set, and a button whose flag is set is the hovered one. Buttons are counted as
  objects, so a button that occurs twice in the list is one button.
\<close>

definition single_selection :: "state \<Rightarrow> bool" where
  "single_selection s \<longleftrightarrow>
     card (set (selected_buttons s)) \<le> 1 \<and>
     (\<forall>b \<in> set (selected_buttons s). hoveredButton s = Some b)"

section \<open>Concrete containers\<close>

text \<open>
  The container of \<^verbatim>\<open>test_rapid_movement\<close>: three buttons of size \<open>(105, 35)\<close> at
  \<open>(10, 10)\<close>, \<open>(125, 10)\<close> and \<open>(240, 10)\<close>, with the references 1, 2 and 3; the
  hotbox they name as parent has the reference 0.
\<close>

definition rapid_objs :: "ref \<Rightarrow> MockButton" where
  "rapid_objs =
     (\<lambda>r. MockButton_init [] (0, 0) (0, 0) None)
       (1 := MockButton_init ''Button1'' (10, 10) (105, 35) (Some 0),
        2 := MockButton_init ''Button2'' (125, 10) (105, 35) (Some 0),
        3 := MockButton_init ''Button3'' (240, 10) (105, 35) (Some 0))"

definition rapid_hotbox :: state where
  "rapid_hotbox = \<lparr>hoveredButton = None, buttons = [1, 2, 3], objs = rapid_objs, calls = []\<rparr>"

text \<open>
  The same container after it has hovered over \<^verbatim>\<open>Button1\<close>, and a container in
  which the flag of \<^verbatim>\<open>Button1\<close> has been set from outside, behind the back of the
  hover logic.
\<close>

definition hovering_hotbox :: state where
  "hovering_hotbox =
     \<lparr>hoveredButton = Some 1, buttons = [1, 2, 3],
      objs = rapid_objs(1 := (rapid_objs 1)\<lparr>selected := True\<rparr>), calls = []\<rparr>"

definition drifted_hotbox :: state where
  "drifted_hotbox =
     \<lparr>hoveredButton = None, buttons = [1, 2, 3],
      objs = rapid_objs(1 := (rapid_objs 1)\<lparr>selected := True\<rparr>), calls = []\<rparr>"

text \<open>A container with one button of size \<open>(0, 0)\<close> at \<open>(10, 10)\<close>.\<close>

definition empty_button :: MockButton where
  "empty_button = MockButton_init ''Empty'' (10, 10) (0, 0) (Some 0)"

definition empty_hotbox :: state where
  "empty_hotbox =
     \<lparr>hoveredButton = None, buttons = [1], objs = (\<lambda>r. empty_button), calls = []\<rparr>"

text \<open>
  A container with one button of size \<open>(-5, 35)\<close>, and a container with two buttons
  that overlap: the second one starts inside the first.
\<close>

definition inverted_hotbox :: state where
  "inverted_hotbox =
     \<lparr>hoveredButton = None, buttons = [1],
      objs = (\<lambda>r. MockButton_init ''Inverted'' (10, 10) (- 5, 35) (Some 0)), calls = []\<rparr>"

definition overlap_hotbox :: state where
  "overlap_hotbox =
     \<lparr>hoveredButton = None, buttons = [1, 2],
      objs = (\<lambda>r. MockButton_init [] (0, 0) (0, 0) None)
        (1 := MockButton_init ''A'' (10, 10) (105, 35) (Some 0),
         2 := MockButton_init ''B'' (50, 20) (105, 35) (Some 0)),
      calls = []\<rparr>"

lemmas concrete_defs =
  rapid_hotbox_def hovering_hotbox_def drifted_hotbox_def rapid_objs_def
  MockButton_init_def button_under_def contains_def rect_def mapFrom_def
  findButtonAtPosition_def isinstance_MockButton_def

section \<open>Coordinate mapping and containment\<close>

text \<open>
  C4. \<^verbatim>\<open>mapFrom\<close> is a function of the point and the button's offset alone, defined
  for all integer coordinates with no failing branch: for a point \<open>(px, py)\<close> and a
  button whose offset is \<open>(ox, oy)\<close> it returns the point \<open>(px - ox, py - oy)\<close>,
  whatever the source widget and the other attributes of the button are.
\<close>

theorem mapFrom_subtracts_offset:
  "mapFrom \<lparr>name = n, parent_pos = (ox, oy), btn_size = sz, btn_parent = p, selected = f\<rparr>
     source \<lparr>pt_x = px, pt_y = py\<rparr> = \<lparr>pt_x = px - ox, pt_y = py - oy\<rparr>"
  by (simp add: mapFrom_def)

text \<open>
  C9. Mapping a point into a button's coordinate system and adding the button's offset
  back gives the point itself, for every point and every offset.
\<close>

theorem mapFrom_round_trip:
  "\<lparr>pt_x = pt_x (mapFrom b source pos) + fst (parent_pos b),
    pt_y = pt_y (mapFrom b source pos) + snd (parent_pos b)\<rparr> = pos"
  by (simp add: mapFrom_def)

text \<open>
  C2. The containment test includes all four edges: the mapped point lies in the
  button's rectangle exactly when \<open>0 \<le> x \<le> width\<close> and \<open>0 \<le> y \<le> height\<close>. For a
  button at \<open>(10, 10)\<close> of size \<open>(105, 35)\<close> the points \<open>(10, 10)\<close>, \<open>(115, 10)\<close>,
  \<open>(10, 45)\<close> and \<open>(115, 45)\<close> are contained, \<open>(9, 10)\<close> and \<open>(116, 10)\<close> are not.
\<close>

theorem contains_boundary_inclusive:
  "(contains (rect b) (mapFrom b source pos) \<longleftrightarrow>
      (0 \<le> pt_x (mapFrom b source pos) \<and> pt_x (mapFrom b source pos) \<le> fst (btn_size b)) \<and>
      (0 \<le> pt_y (mapFrom b source pos) \<and> pt_y (mapFrom b source pos) \<le> snd (btn_size b))) \<and>
   (let r = \<lparr>name = n, parent_pos = (10, 10), btn_size = (105, 35), btn_parent = p,
              selected = f\<rparr>
    in contains (rect r) (mapFrom r source \<lparr>pt_x = 10, pt_y = 10\<rparr>) \<and>
       contains (rect r) (mapFrom r source \<lparr>pt_x = 115, pt_y = 10\<rparr>) \<and>
       contains (rect r) (mapFrom r source \<lparr>pt_x = 10, pt_y = 45\<rparr>) \<and>
       contains (rect r) (mapFrom r source \<lparr>pt_x = 115, pt_y = 45\<rparr>) \<and>
       \<not> contains (rect r) (mapFrom r source \<lparr>pt_x = 9, pt_y = 10\<rparr>) \<and>
       \<not> contains (rect r) (mapFrom r source \<lparr>pt_x = 116, pt_y = 10\<rparr>))"
  by (simp add: contains_def rect_def mapFrom_def)

section \<open>Locating the button under the pointer\<close>

text \<open>The loop is the library's search for the first element that satisfies a test.\<close>

lemma find_loop_find: "find_loop s pos bs = List.find (button_under s pos) bs"
  by (induction bs) (simp_all add: button_under_def)

lemma findButtonAtPosition_find:
  "findButtonAtPosition s pos = List.find (button_under s pos) (buttons s)"
  by (simp add: findButtonAtPosition_def isinstance_MockButton_def find_loop_find)

lemma findButtonAtPosition_Some:
  "findButtonAtPosition s pos = Some b \<Longrightarrow> b \<in> set (buttons s) \<and> button_under s pos b"
  by (auto simp: findButtonAtPosition_find find_Some_iff)

lemma find_behind_prefix:
  "P a \<Longrightarrow>
   List.find P (pre @ a # rest) = (case List.find P pre of None \<Rightarrow> Some a | Some c \<Rightarrow> Some c)"
  by (induction pre) simp_all

text \<open>The result depends on the list and on the offsets and sizes of the buttons only.\<close>

lemma button_under_geometry:
  assumes "parent_pos (objs s' b) = parent_pos (objs s b)"
    and "btn_size (objs s' b) = btn_size (objs s b)"
  shows "button_under s' pos b = button_under s pos b"
  using assms by (simp add: button_under_def mapFrom_def rect_def)

lemma findButtonAtPosition_geometry:
  assumes "buttons s' = buttons s"
    and "\<And>b. parent_pos (objs s' b) = parent_pos (objs s b)"
    and "\<And>b. btn_size (objs s' b) = btn_size (objs s b)"
  shows "findButtonAtPosition s' pos = findButtonAtPosition s pos"
proof -
  have "button_under s' pos = button_under s pos"
    using assms(2,3) by (intro ext button_under_geometry)
  then show ?thesis
    by (simp add: findButtonAtPosition_find assms(1))
qed

text \<open>
  C3. \<^verbatim>\<open>_findButtonAtPosition\<close> goes through the list in its order and returns the
  first button under the position: the result is \<open>None\<close> exactly when no button of the
  list is under the position, and it is \<open>b\<close> exactly when \<open>b\<close> stands at some index,
  is under the position, and no button at a smaller index is. So when two buttons \<open>A\<close>
  and \<open>B\<close> both are under the position and \<open>A\<close> comes first, a container of just these
  two resolves to \<open>A\<close>; in a longer list the result is \<open>A\<close> too, unless a button that
  comes even before \<open>A\<close> is under the position, and then it is such a button: never
  one that the list has only behind \<open>A\<close>.
\<close>

theorem findButtonAtPosition_first_match:
  "(findButtonAtPosition s pos = None \<longleftrightarrow> (\<forall>b \<in> set (buttons s). \<not> button_under s pos b)) \<and>
   (findButtonAtPosition s pos = Some b \<longleftrightarrow>
      (\<exists>i < length (buttons s). buttons s ! i = b \<and> button_under s pos b \<and>
         (\<forall>j < i. \<not> button_under s pos (buttons s ! j)))) \<and>
   (buttons s = [A, B] \<and> button_under s pos A \<and> button_under s pos B \<longrightarrow>
      findButtonAtPosition s pos = Some A) \<and>
   (buttons s = pre @ A # mid @ B # post \<and> button_under s pos A \<and> button_under s pos B \<longrightarrow>
      (if \<exists>c \<in> set pre. button_under s pos c
       then \<exists>c \<in> set pre. button_under s pos c \<and> findButtonAtPosition s pos = Some c
       else findButtonAtPosition s pos = Some A))"
proof (intro conjI)
  show "findButtonAtPosition s pos = None \<longleftrightarrow> (\<forall>b \<in> set (buttons s). \<not> button_under s pos b)"
    by (auto simp: findButtonAtPosition_find find_None_iff)
  show "findButtonAtPosition s pos = Some b \<longleftrightarrow>
      (\<exists>i < length (buttons s). buttons s ! i = b \<and> button_under s pos b \<and>
         (\<forall>j < i. \<not> button_under s pos (buttons s ! j)))"
    by (auto simp: findButtonAtPosition_find find_Some_iff)
  show "buttons s = [A, B] \<and> button_under s pos A \<and> button_under s pos B \<longrightarrow>
      findButtonAtPosition s pos = Some A"
    by (simp add: findButtonAtPosition_find)
  show "buttons s = pre @ A # mid @ B # post \<and> button_under s pos A \<and> button_under s pos B \<longrightarrow>
      (if \<exists>c \<in> set pre. button_under s pos c
       then \<exists>c \<in> set pre. button_under s pos c \<and> findButtonAtPosition s pos = Some c
       else findButtonAtPosition s pos = Some A)"
  proof (intro impI, elim conjE)
    assume eq: "buttons s = pre @ A # mid @ B # post" and a: "button_under s pos A"
    have res: "findButtonAtPosition s pos =
        (case List.find (button_under s pos) pre of None \<Rightarrow> Some A | Some c \<Rightarrow> Some c)"
      using a by (simp add: findButtonAtPosition_find eq find_behind_prefix)
    show "if \<exists>c \<in> set pre. button_under s pos c
       then \<exists>c \<in> set pre. button_under s pos c \<and> findButtonAtPosition s pos = Some c
       else findButtonAtPosition s pos = Some A"
    proof (cases "List.find (button_under s pos) pre")
      case None
      then have "\<not> (\<exists>c \<in> set pre. button_under s pos c)"
        by (auto simp: find_None_iff)
      with res None show ?thesis by simp
    next
      case (Some c)
      then have "c \<in> set pre \<and> button_under s pos c"
        by (auto simp: find_Some_iff)
      with res Some show ?thesis by auto
    qed
  qed
qed

theorem findButtonAtPosition_first_match_witness:
  "buttons overlap_hotbox = [1, 2] \<and>
   button_under overlap_hotbox \<lparr>pt_x = 60, pt_y = 30\<rparr> 1 \<and>
   button_under overlap_hotbox \<lparr>pt_x = 60, pt_y = 30\<rparr> 2 \<and>
   findButtonAtPosition overlap_hotbox \<lparr>pt_x = 60, pt_y = 30\<rparr> = Some 1"
proof -
  have h: "buttons overlap_hotbox = [1, 2] \<and>
      button_under overlap_hotbox \<lparr>pt_x = 60, pt_y = 30\<rparr> 1 \<and>
      button_under overlap_hotbox \<lparr>pt_x = 60, pt_y = 30\<rparr> 2"
    by (simp add: overlap_hotbox_def MockButton_init_def button_under_def contains_def
        rect_def mapFrom_def)
  with findButtonAtPosition_first_match [of overlap_hotbox "\<lparr>pt_x = 60, pt_y = 30\<rparr>" 1 1 2]
  show ?thesis
    by blast
qed

text \<open>
  C8 (as amended). A rectangle of negative width or negative height contains no point,
  so a button of such a size is never the button found, at any position. A rectangle
  contains some point exactly when its width and its height both are at least 0: with
  both edges included, a width or height of 0 still leaves the points of the edge.
\<close>

theorem inverted_rect_contains_no_point:
  "(fst (btn_size b) < 0 \<or> snd (btn_size b) < 0 \<longrightarrow> \<not> contains (rect b) point) \<and>
   (fst (btn_size (objs s r)) < 0 \<or> snd (btn_size (objs s r)) < 0 \<longrightarrow>
      findButtonAtPosition s pos \<noteq> Some r) \<and>
   ((\<exists>p. contains (rect b) p) \<longleftrightarrow> 0 \<le> fst (btn_size b) \<and> 0 \<le> snd (btn_size b))"
proof (intro conjI)
  show "fst (btn_size b) < 0 \<or> snd (btn_size b) < 0 \<longrightarrow> \<not> contains (rect b) point"
    by (auto simp: contains_def rect_def)
  show "fst (btn_size (objs s r)) < 0 \<or> snd (btn_size (objs s r)) < 0 \<longrightarrow>
      findButtonAtPosition s pos \<noteq> Some r"
    using findButtonAtPosition_Some [of s pos r]
    by (auto simp: button_under_def contains_def rect_def)
  show "(\<exists>p. contains (rect b) p) \<longleftrightarrow> 0 \<le> fst (btn_size b) \<and> 0 \<le> snd (btn_size b)"
  proof
    assume "\<exists>p. contains (rect b) p"
    then show "0 \<le> fst (btn_size b) \<and> 0 \<le> snd (btn_size b)"
      by (auto simp: contains_def rect_def)
  next
    assume "0 \<le> fst (btn_size b) \<and> 0 \<le> snd (btn_size b)"
    then have "contains (rect b) \<lparr>pt_x = 0, pt_y = 0\<rparr>"
      by (simp add: contains_def rect_def)
    then show "\<exists>p. contains (rect b) p" ..
  qed
qed

theorem inverted_rect_contains_no_point_witness:
  "fst (btn_size (objs inverted_hotbox 1)) < 0 \<and>
   \<not> contains (rect (objs inverted_hotbox 1))
       (mapFrom (objs inverted_hotbox 1) inverted_hotbox \<lparr>pt_x = 10, pt_y = 10\<rparr>) \<and>
   findButtonAtPosition inverted_hotbox \<lparr>pt_x = 10, pt_y = 10\<rparr> \<noteq> Some 1"
proof -
  have h: "fst (btn_size (objs inverted_hotbox 1)) < 0"
    by (simp add: inverted_hotbox_def MockButton_init_def)
  with inverted_rect_contains_no_point [of "objs inverted_hotbox 1" _ inverted_hotbox 1]
  show ?thesis
    by blast
qed

text \<open>
  C8 as stated fails for a width of 0: the button of size \<open>(0, 0)\<close> at \<open>(10, 10)\<close>
  contains the position \<open>(10, 10)\<close> and is the button found there.
\<close>

theorem empty_rect_contains_its_origin:
  "fst (btn_size (objs empty_hotbox 1)) \<le> 0 \<and>
   contains (rect (objs empty_hotbox 1))
     (mapFrom (objs empty_hotbox 1) empty_hotbox \<lparr>pt_x = 10, pt_y = 10\<rparr>) \<and>
   findButtonAtPosition empty_hotbox \<lparr>pt_x = 10, pt_y = 10\<rparr> = Some 1"
  by (simp add: contains_def rect_def mapFrom_def empty_hotbox_def empty_button_def
      MockButton_init_def findButtonAtPosition_def isinstance_MockButton_def)

section \<open>The hover state\<close>

subsection \<open>The clearing loop\<close>

lemma clear_loop_buttons: "buttons (clear_loop bs s) = buttons s"
  by (induction bs arbitrary: s) (simp_all add: setSelectionStatus_def)

lemma clear_loop_hoveredButton: "hoveredButton (clear_loop bs s) = hoveredButton s"
  by (induction bs arbitrary: s) (simp_all add: setSelectionStatus_def)

lemma clear_loop_objs:
  "objs (clear_loop bs s) b = (objs s b)\<lparr>selected := selected (objs s b) \<and> b \<notin> set bs\<rparr>"
proof (induction bs arbitrary: s)
  case Nil
  show ?case by simp
next
  case (Cons a bs)
  show ?case by (simp add: Cons.IH setSelectionStatus_def)
qed

text \<open>
  The loop calls \<^verbatim>\<open>setSelectionStatus(False)\<close> once for every button of the list
  whose flag is set: a button that occurs a second time has lost its flag by then.
\<close>

lemma clear_loop_calls:
  "\<exists>ds. calls (clear_loop bs s) = calls s @ map (\<lambda>b. SetSelectionStatus b False) ds \<and>
        distinct ds \<and> set ds = {b \<in> set bs. selected (objs s b)} \<and>
        (distinct bs \<longrightarrow> ds = filter (\<lambda>b. selected (objs s b)) bs)"
proof (induction bs arbitrary: s)
  case Nil
  show ?case by simp
next
  case (Cons a bs)
  show ?case
  proof (cases "selected (objs s a)")
    case False
    from Cons.IH [of s] obtain ds where
      ds: "calls (clear_loop bs s) = calls s @ map (\<lambda>b. SetSelectionStatus b False) ds"
        "distinct ds" "set ds = {b \<in> set bs. selected (objs s b)}"
        "distinct bs \<longrightarrow> ds = filter (\<lambda>b. selected (objs s b)) bs"
      by blast
    have "set ds = {b \<in> set (a # bs). selected (objs s b)}"
      using ds(3) False by auto
    with ds False show ?thesis by auto
  next
    case True
    let ?s1 = "setSelectionStatus a False s"
    from Cons.IH [of ?s1] obtain ds where
      ds: "calls (clear_loop bs ?s1) = calls ?s1 @ map (\<lambda>b. SetSelectionStatus b False) ds"
        "distinct ds" "set ds = {b \<in> set bs. selected (objs ?s1 b)}"
        "distinct bs \<longrightarrow> ds = filter (\<lambda>b. selected (objs ?s1 b)) bs"
      by blast
    have sel: "selected (objs ?s1 b) \<longleftrightarrow> b \<noteq> a \<and> selected (objs s b)" for b
      by (simp add: setSelectionStatus_def)
    have c: "calls (clear_loop (a # bs) s) =
        calls s @ map (\<lambda>b. SetSelectionStatus b False) (a # ds)"
      using True ds(1) by (simp add: setSelectionStatus_def)
    have d: "distinct (a # ds)"
      using ds(2,3) sel by auto
    have e: "set (a # ds) = {b \<in> set (a # bs). selected (objs s b)}"
      using ds(3) sel True by auto
    have f: "distinct (a # bs) \<longrightarrow> a # ds = filter (\<lambda>b. selected (objs s b)) (a # bs)"
    proof
      assume dist: "distinct (a # bs)"
      then have "ds = filter (\<lambda>b. selected (objs ?s1 b)) bs"
        using ds(4) by simp
      also have "\<dots> = filter (\<lambda>b. selected (objs s b)) bs"
        using dist by (intro filter_cong) (auto simp: sel)
      finally show "a # ds = filter (\<lambda>b. selected (objs s b)) (a # bs)"
        using True by simp
    qed
    from c d e f show ?thesis by blast
  qed
qed

subsection \<open>One pointer move\<close>

lemma simulate_mouseMove_same:
  "findButtonAtPosition s pos = hoveredButton s \<Longrightarrow> simulate_mouseMove s pos = s"
  by (simp add: simulate_mouseMove_def)

lemma simulate_mouseMove_buttons: "buttons (simulate_mouseMove s pos) = buttons s"
  by (simp add: simulate_mouseMove_def Let_def setSelectionStatus_def clear_loop_buttons
      split: option.split)

lemma simulate_mouseMove_hoveredButton:
  "hoveredButton (simulate_mouseMove s pos) = findButtonAtPosition s pos"
  by (simp add: simulate_mouseMove_def Let_def setSelectionStatus_def split: option.split)

lemma simulate_mouseMove_objs:
  "findButtonAtPosition s pos \<noteq> hoveredButton s \<Longrightarrow>
   objs (simulate_mouseMove s pos) b =
     (objs s b)\<lparr>selected := findButtonAtPosition s pos = Some b \<or>
                            (selected (objs s b) \<and> b \<notin> set (buttons s))\<rparr>"
  by (auto simp: simulate_mouseMove_def Let_def setSelectionStatus_def clear_loop_objs
      split: option.split)

lemma simulate_mouseMove_calls:
  "findButtonAtPosition s pos \<noteq> hoveredButton s \<Longrightarrow>
   calls (simulate_mouseMove s pos) =
     calls (clear_loop (buttons s) s) @
     (case findButtonAtPosition s pos of None \<Rightarrow> [] | Some b \<Rightarrow> [SetSelectionStatus b True])"
  by (simp add: simulate_mouseMove_def Let_def setSelectionStatus_def split: option.split)

lemma simulate_mouseMove_frame:
  "objs (simulate_mouseMove s pos) b =
     (objs s b)\<lparr>selected := selected (objs (simulate_mouseMove s pos) b)\<rparr>"
  by (cases "findButtonAtPosition s pos = hoveredButton s")
     (simp_all add: simulate_mouseMove_same simulate_mouseMove_objs)

lemma simulate_mouseMove_parent_pos:
  "parent_pos (objs (simulate_mouseMove s pos) b) = parent_pos (objs s b)"
  by (subst simulate_mouseMove_frame) simp

lemma simulate_mouseMove_btn_size:
  "btn_size (objs (simulate_mouseMove s pos) b) = btn_size (objs s b)"
  by (subst simulate_mouseMove_frame) simp

lemma selected_buttons_after_transition:
  assumes "findButtonAtPosition s pos \<noteq> hoveredButton s"
  shows "set (selected_buttons (simulate_mouseMove s pos)) =
           set_option (findButtonAtPosition s pos)"
  using assms findButtonAtPosition_Some [of s pos]
  by (auto simp: selected_buttons_def simulate_mouseMove_buttons simulate_mouseMove_objs)

text \<open>
  C10. \<^verbatim>\<open>simulate_mouseMove\<close> leaves the list of buttons as it is (the same
  references in the same order) and, of every button, the name, the offset, the size
  and the parent: a button after the call is the button before it with at most a
  different flag. \<^verbatim>\<open>_findButtonAtPosition\<close> assigns to nothing, which is why it is a
  function from the state to its result alone; its result at any position is the same
  after the call as before it.
\<close>

theorem simulate_mouseMove_changes_flags_only:
  "buttons (simulate_mouseMove s pos) = buttons s \<and>
   name (objs (simulate_mouseMove s pos) b) = name (objs s b) \<and>
   parent_pos (objs (simulate_mouseMove s pos) b) = parent_pos (objs s b) \<and>
   btn_size (objs (simulate_mouseMove s pos) b) = btn_size (objs s b) \<and>
   btn_parent (objs (simulate_mouseMove s pos) b) = btn_parent (objs s b) \<and>
   objs (simulate_mouseMove s pos) b =
     (objs s b)\<lparr>selected := selected (objs (simulate_mouseMove s pos) b)\<rparr> \<and>
   findButtonAtPosition (simulate_mouseMove s pos) q = findButtonAtPosition s q"
proof -
  let ?s' = "simulate_mouseMove s pos"
  have frame: "objs ?s' b = (objs s b)\<lparr>selected := selected (objs ?s' b)\<rparr>" for b
    by (rule simulate_mouseMove_frame)
  have "name (objs ?s' b) = name (objs s b)"
    by (subst frame) simp
  moreover have "btn_parent (objs ?s' b) = btn_parent (objs s b)"
    by (subst frame) simp
  moreover have "findButtonAtPosition ?s' q = findButtonAtPosition s q"
    by (rule findButtonAtPosition_geometry)
       (simp_all add: simulate_mouseMove_buttons simulate_mouseMove_parent_pos
          simulate_mouseMove_btn_size)
  ultimately show ?thesis
    using frame [of b]
    by (simp add: simulate_mouseMove_buttons simulate_mouseMove_parent_pos
        simulate_mouseMove_btn_size)
qed

text \<open>
  C6. When the button found is the hovered reference (both may be \<open>None\<close>),
  \<^verbatim>\<open>simulate_mouseMove\<close> returns the state it was given: no call of
  \<^verbatim>\<open>setSelectionStatus\<close>, no flag and no hovered reference changed. A second move to a
  position that finds the same button as the first move therefore changes nothing and
  emits nothing, in whatever state the first move started.
\<close>

theorem unchanged_hover_is_no_op:
  "(findButtonAtPosition s pos = hoveredButton s \<longrightarrow> simulate_mouseMove s pos = s) \<and>
   (findButtonAtPosition s p2 = findButtonAtPosition s p1 \<longrightarrow>
      simulate_mouseMove (simulate_mouseMove s p1) p2 = simulate_mouseMove s p1) \<and>
   (findButtonAtPosition (simulate_mouseMove s p1) p2 = findButtonAtPosition s p1 \<longrightarrow>
      simulate_mouseMove (simulate_mouseMove s p1) p2 = simulate_mouseMove s p1)"
proof -
  have "simulate_mouseMove (simulate_mouseMove s p1) p2 = simulate_mouseMove s p1"
    if "findButtonAtPosition (simulate_mouseMove s p1) p2 = findButtonAtPosition s p1"
    using that by (intro simulate_mouseMove_same) (simp add: simulate_mouseMove_hoveredButton)
  moreover have "findButtonAtPosition (simulate_mouseMove s p1) p2 = findButtonAtPosition s p2"
    by (rule findButtonAtPosition_geometry)
       (simp_all add: simulate_mouseMove_buttons simulate_mouseMove_parent_pos
          simulate_mouseMove_btn_size)
  ultimately show ?thesis
    by (simp add: simulate_mouseMove_same)
qed

theorem unchanged_hover_is_no_op_witness:
  "findButtonAtPosition hovering_hotbox \<lparr>pt_x = 62, pt_y = 27\<rparr> = hoveredButton hovering_hotbox \<and>
   simulate_mouseMove hovering_hotbox \<lparr>pt_x = 62, pt_y = 27\<rparr> = hovering_hotbox \<and>
   findButtonAtPosition rapid_hotbox \<lparr>pt_x = 70, pt_y = 30\<rparr> =
     findButtonAtPosition rapid_hotbox \<lparr>pt_x = 62, pt_y = 27\<rparr> \<and>
   simulate_mouseMove (simulate_mouseMove rapid_hotbox \<lparr>pt_x = 62, pt_y = 27\<rparr>)
       \<lparr>pt_x = 70, pt_y = 30\<rparr> =
     simulate_mouseMove rapid_hotbox \<lparr>pt_x = 62, pt_y = 27\<rparr>"
proof -
  have h1: "findButtonAtPosition hovering_hotbox \<lparr>pt_x = 62, pt_y = 27\<rparr> =
      hoveredButton hovering_hotbox"
    by (simp add: concrete_defs)
  have h2: "findButtonAtPosition rapid_hotbox \<lparr>pt_x = 70, pt_y = 30\<rparr> =
      findButtonAtPosition rapid_hotbox \<lparr>pt_x = 62, pt_y = 27\<rparr>"
    by (simp add: concrete_defs)
  from h1 h2
    unchanged_hover_is_no_op [of hovering_hotbox "\<lparr>pt_x = 62, pt_y = 27\<rparr>"]
    unchanged_hover_is_no_op [of rapid_hotbox _ "\<lparr>pt_x = 70, pt_y = 30\<rparr>" "\<lparr>pt_x = 62, pt_y = 27\<rparr>"]
  show ?thesis
    by blast
qed

subsection \<open>The single-selection invariant\<close>

text \<open>
  The hover logic keeps more than the invariant: the buttons of the list whose flag is
  set are exactly the hovered reference, or none when there is no hovered reference.
\<close>

lemma hovered_flagged_initial:
  "initial s \<Longrightarrow> set (selected_buttons s) = set_option (hoveredButton s)"
  by (auto simp: initial_def selected_buttons_def)

lemma hovered_flagged_step:
  assumes "set (selected_buttons s) = set_option (hoveredButton s)"
  shows "set (selected_buttons (simulate_mouseMove s pos)) =
           set_option (hoveredButton (simulate_mouseMove s pos))"
proof (cases "findButtonAtPosition s pos = hoveredButton s")
  case True
  with assms show ?thesis by (simp add: simulate_mouseMove_same)
next
  case False
  then show ?thesis
    by (simp add: selected_buttons_after_transition simulate_mouseMove_hoveredButton)
qed

lemma hovered_flagged_moves:
  "set (selected_buttons s) = set_option (hoveredButton s) \<Longrightarrow>
   set (selected_buttons (simulate_moves s positions)) =
     set_option (hoveredButton (simulate_moves s positions))"
  by (induction positions arbitrary: s) (simp_all add: hovered_flagged_step)

lemma simulate_moves_buttons: "buttons (simulate_moves s positions) = buttons s"
  by (induction positions arbitrary: s) (simp_all add: simulate_mouseMove_buttons)

lemma card_set_option: "card (set_option x) \<le> 1"
  by (cases x) simp_all

lemma hovered_flagged_single_selection:
  assumes "set (selected_buttons s) = set_option (hoveredButton s)"
  shows "single_selection s"
  using assms card_set_option [of "hoveredButton s"]
  by (auto simp: single_selection_def)

lemma single_selection_length:
  assumes "single_selection s" and "distinct (buttons s)"
  shows "length (selected_buttons s) \<le> 1"
proof -
  have "distinct (selected_buttons s)"
    using assms(2) by (simp add: selected_buttons_def)
  then have "length (selected_buttons s) = card (set (selected_buttons s))"
    by (simp add: distinct_card)
  with assms(1) show ?thesis by (simp add: single_selection_def)
qed

lemma distinct_same_set_small:
  assumes "distinct xs" and "distinct ys" and "set xs = set ys" and "card (set ys) \<le> 1"
  shows "xs = ys"
proof -
  have "length xs \<le> 1" and "length ys \<le> 1"
    using assms by (simp_all add: distinct_card [symmetric])
  with assms(3) show ?thesis
    by (cases xs; cases ys) auto
qed

text \<open>
  C5. On a transition (the button found is not the hovered reference)
  \<^verbatim>\<open>simulate_mouseMove\<close> clears the flag of every button of the list whose flag is
  set, however many there are and whatever the hovered reference was, with one deselect
  call for each of them (in list order when the list has no duplicates); then it makes
  the button found the hovered reference and, when a button was found, sets its flag
  with one select call after the deselects. Afterwards a button of the list has its
  flag set exactly when it is the button found, and the single-selection invariant
  holds, whether or not it held before.
\<close>

theorem transition_clears_all_then_selects:
  assumes "findButtonAtPosition s pos \<noteq> hoveredButton s"
  shows "(\<exists>ds. distinct ds \<and> set ds = set (selected_buttons s) \<and>
            (distinct (buttons s) \<longrightarrow> ds = selected_buttons s) \<and>
            calls (simulate_mouseMove s pos) =
              calls s @ map (\<lambda>b. SetSelectionStatus b False) ds @
              (case findButtonAtPosition s pos of
                 None \<Rightarrow> [] | Some b \<Rightarrow> [SetSelectionStatus b True])) \<and>
         hoveredButton (simulate_mouseMove s pos) = findButtonAtPosition s pos \<and>
         (\<forall>b \<in> set (buttons s).
            selected (objs (simulate_mouseMove s pos) b) \<longleftrightarrow>
              findButtonAtPosition s pos = Some b) \<and>
         (\<forall>b. findButtonAtPosition s pos = Some b \<longrightarrow>
            b \<in> set (buttons s) \<and> selected (objs (simulate_mouseMove s pos) b)) \<and>
         single_selection (simulate_mouseMove s pos)"
proof (intro conjI)
  from clear_loop_calls [of "buttons s" s] obtain ds where
    ds: "calls (clear_loop (buttons s) s) = calls s @ map (\<lambda>b. SetSelectionStatus b False) ds"
      "distinct ds" "set ds = {b \<in> set (buttons s). selected (objs s b)}"
      "distinct (buttons s) \<longrightarrow> ds = filter (\<lambda>b. selected (objs s b)) (buttons s)"
    by blast
  show "\<exists>ds. distinct ds \<and> set ds = set (selected_buttons s) \<and>
            (distinct (buttons s) \<longrightarrow> ds = selected_buttons s) \<and>
            calls (simulate_mouseMove s pos) =
              calls s @ map (\<lambda>b. SetSelectionStatus b False) ds @
              (case findButtonAtPosition s pos of
                 None \<Rightarrow> [] | Some b \<Rightarrow> [SetSelectionStatus b True])"
    using ds assms by (intro exI [of _ ds]) (simp add: selected_buttons_def simulate_mouseMove_calls)
  show "hoveredButton (simulate_mouseMove s pos) = findButtonAtPosition s pos"
    by (rule simulate_mouseMove_hoveredButton)
  show "\<forall>b \<in> set (buttons s).
            selected (objs (simulate_mouseMove s pos) b) \<longleftrightarrow>
              findButtonAtPosition s pos = Some b"
    using assms by (simp add: simulate_mouseMove_objs)
  show "\<forall>b. findButtonAtPosition s pos = Some b \<longrightarrow>
            b \<in> set (buttons s) \<and> selected (objs (simulate_mouseMove s pos) b)"
  proof (intro allI impI)
    fix b
    assume b: "findButtonAtPosition s pos = Some b"
    have "selected (objs (simulate_mouseMove s pos) b)"
      by (subst simulate_mouseMove_objs [OF assms]) (simp add: b)
    with b show "b \<in> set (buttons s) \<and> selected (objs (simulate_mouseMove s pos) b)"
      by (simp add: findButtonAtPosition_Some)
  qed
  show "single_selection (simulate_mouseMove s pos)"
    using assms
    by (intro hovered_flagged_single_selection)
       (simp add: selected_buttons_after_transition simulate_mouseMove_hoveredButton)
qed

text \<open>
  A transition from \<^verbatim>\<open>Button1\<close> to \<^verbatim>\<open>Button2\<close>, and a transition that starts in
  the state with a stale flag on \<^verbatim>\<open>Button1\<close> and no hovered reference, where the
  invariant does not hold.
\<close>

theorem transition_clears_all_then_selects_witness:
  "findButtonAtPosition hovering_hotbox \<lparr>pt_x = 177, pt_y = 27\<rparr> \<noteq> hoveredButton hovering_hotbox \<and>
   hoveredButton (simulate_mouseMove hovering_hotbox \<lparr>pt_x = 177, pt_y = 27\<rparr>) =
     findButtonAtPosition hovering_hotbox \<lparr>pt_x = 177, pt_y = 27\<rparr> \<and>
   single_selection (simulate_mouseMove hovering_hotbox \<lparr>pt_x = 177, pt_y = 27\<rparr>) \<and>
   \<not> single_selection drifted_hotbox \<and>
   findButtonAtPosition drifted_hotbox \<lparr>pt_x = 177, pt_y = 27\<rparr> \<noteq> hoveredButton drifted_hotbox \<and>
   single_selection (simulate_mouseMove drifted_hotbox \<lparr>pt_x = 177, pt_y = 27\<rparr>)"
proof -
  have h: "findButtonAtPosition hovering_hotbox \<lparr>pt_x = 177, pt_y = 27\<rparr> \<noteq>
      hoveredButton hovering_hotbox"
    by (simp add: concrete_defs)
  have h': "findButtonAtPosition drifted_hotbox \<lparr>pt_x = 177, pt_y = 27\<rparr> \<noteq>
      hoveredButton drifted_hotbox"
    by (simp add: concrete_defs)
  have "selected_buttons drifted_hotbox = [1]"
    by (simp add: selected_buttons_def concrete_defs)
  then have "\<not> single_selection drifted_hotbox"
    by (simp add: single_selection_def) (simp add: drifted_hotbox_def)
  with h h' transition_clears_all_then_selects [OF h] transition_clears_all_then_selects [OF h']
  show ?thesis
    by blast
qed

text \<open>
  C1. Start in an initial state (no hovered reference, no flag set on a button of the
  list) and apply any sequence of pointer moves. After each of them, that is after
  every prefix \<open>take n positions\<close> of the sequence, the single-selection invariant
  holds: the buttons of the list whose flag is set are at most one, and such a button
  is the hovered reference. More precisely they are exactly the hovered reference (none
  when it is \<open>None\<close>), and in a list without duplicates the count that the test takes,
  \<^verbatim>\<open>sum(1 for btn in hotbox.buttons if btn.selected)\<close>, is at most 1.
\<close>

theorem single_selection_after_each_move:
  assumes "initial s"
  shows "single_selection (simulate_moves s (take n positions)) \<and>
         set (selected_buttons (simulate_moves s (take n positions))) =
           set_option (hoveredButton (simulate_moves s (take n positions))) \<and>
         (distinct (buttons s) \<longrightarrow>
            length (selected_buttons (simulate_moves s (take n positions))) \<le> 1)"
proof -
  let ?s' = "simulate_moves s (take n positions)"
  have eq: "set (selected_buttons ?s') = set_option (hoveredButton ?s')"
    using assms by (intro hovered_flagged_moves hovered_flagged_initial)
  then have inv: "single_selection ?s'"
    by (rule hovered_flagged_single_selection)
  have "length (selected_buttons ?s') \<le> 1" if "distinct (buttons s)"
    using inv that by (intro single_selection_length) (simp_all add: simulate_moves_buttons)
  with eq inv show ?thesis by blast
qed

text \<open>
  The rapid-movement scenario of the test: after the five moves the invariant holds and
  the hovered button is \<^verbatim>\<open>Button2\<close>, the one at \<open>(125, 10)\<close>.
\<close>

theorem single_selection_after_each_move_witness:
  "initial rapid_hotbox \<and>
   single_selection (simulate_moves rapid_hotbox (take 5
     [\<lparr>pt_x = 62, pt_y = 27\<rparr>, \<lparr>pt_x = 177, pt_y = 27\<rparr>, \<lparr>pt_x = 62, pt_y = 27\<rparr>,
      \<lparr>pt_x = 292, pt_y = 27\<rparr>, \<lparr>pt_x = 177, pt_y = 27\<rparr>])) \<and>
   hoveredButton (simulate_moves rapid_hotbox (take 5
     [\<lparr>pt_x = 62, pt_y = 27\<rparr>, \<lparr>pt_x = 177, pt_y = 27\<rparr>, \<lparr>pt_x = 62, pt_y = 27\<rparr>,
      \<lparr>pt_x = 292, pt_y = 27\<rparr>, \<lparr>pt_x = 177, pt_y = 27\<rparr>])) = Some 2"
proof -
  have h: "initial rapid_hotbox"
    by (simp add: initial_def rapid_hotbox_def rapid_objs_def MockButton_init_def)
  have "hoveredButton (simulate_moves rapid_hotbox (take 5
     [\<lparr>pt_x = 62, pt_y = 27\<rparr>, \<lparr>pt_x = 177, pt_y = 27\<rparr>, \<lparr>pt_x = 62, pt_y = 27\<rparr>,
      \<lparr>pt_x = 292, pt_y = 27\<rparr>, \<lparr>pt_x = 177, pt_y = 27\<rparr>])) = Some 2"
    by (simp add: simulate_mouseMove_hoveredButton concrete_defs simulate_mouseMove_def
        setSelectionStatus_def)
  with h single_selection_after_each_move [OF h] show ?thesis
    by blast
qed

text \<open>
  C7 (as amended). For a position that is under no button of the list,
  \<^verbatim>\<open>_findButtonAtPosition\<close> returns \<open>None\<close> and the hovered reference is \<open>None\<close>
  after \<^verbatim>\<open>simulate_mouseMove\<close>. When the single-selection invariant held before the
  call, or the hovered reference was not \<open>None\<close>, no button of the list has its flag
  set afterwards. When the invariant held before the call, the call emits one deselect
  for the button whose flag was set, or nothing when there was none, and no select.
\<close>

theorem move_outside_all_buttons:
  assumes "\<forall>b \<in> set (buttons s). \<not> button_under s pos b"
  shows "findButtonAtPosition s pos = None \<and>
         hoveredButton (simulate_mouseMove s pos) = None \<and>
         (single_selection s \<or> hoveredButton s \<noteq> None \<longrightarrow>
            selected_buttons (simulate_mouseMove s pos) = []) \<and>
         (single_selection s \<longrightarrow>
            length (remdups (selected_buttons s)) \<le> 1 \<and>
            calls (simulate_mouseMove s pos) =
              calls s @ map (\<lambda>b. SetSelectionStatus b False) (remdups (selected_buttons s)))"
proof -
  let ?s' = "simulate_mouseMove s pos"
  have none: "findButtonAtPosition s pos = None"
    using assms by (simp add: findButtonAtPosition_find find_None_iff)
  have hov: "hoveredButton ?s' = None"
    by (simp add: simulate_mouseMove_hoveredButton none)
  have trans: "selected_buttons ?s' = []" if "hoveredButton s \<noteq> None"
  proof -
    from that have "findButtonAtPosition s pos \<noteq> hoveredButton s"
      by (auto simp: none)
    then have "set (selected_buttons ?s') = {}"
      by (simp add: selected_buttons_after_transition none)
    then show ?thesis by simp
  qed
  have idle: "selected_buttons s = []" if "single_selection s" "hoveredButton s = None"
    using that by (cases "selected_buttons s") (auto simp: single_selection_def)
  have clear: "selected_buttons ?s' = []" if "single_selection s \<or> hoveredButton s \<noteq> None"
  proof (cases "hoveredButton s")
    case None
    with that have "selected_buttons s = []" by (simp add: idle)
    then show ?thesis by (simp add: simulate_mouseMove_same none None)
  next
    case (Some h)
    then show ?thesis by (simp add: trans)
  qed
  have len: "length (remdups (selected_buttons s)) \<le> 1" if "single_selection s"
    using that by (simp add: single_selection_def length_remdups_card_conv)
  have emit: "calls ?s' =
      calls s @ map (\<lambda>b. SetSelectionStatus b False) (remdups (selected_buttons s))"
    if inv: "single_selection s"
  proof (cases "hoveredButton s")
    case None
    then show ?thesis by (simp add: idle [OF inv] simulate_mouseMove_same none)
  next
    case (Some h)
    then have neq: "findButtonAtPosition s pos \<noteq> hoveredButton s"
      by (auto simp: none)
    from clear_loop_calls [of "buttons s" s] obtain ds where
      ds: "calls (clear_loop (buttons s) s) = calls s @ map (\<lambda>b. SetSelectionStatus b False) ds"
        "distinct ds" "set ds = {b \<in> set (buttons s). selected (objs s b)}"
      by blast
    have "set ds = set (remdups (selected_buttons s))"
      using ds(3) by (simp add: selected_buttons_def)
    moreover have "card (set (remdups (selected_buttons s))) \<le> 1"
      using inv by (simp add: single_selection_def)
    ultimately have "ds = remdups (selected_buttons s)"
      using ds(2) by (intro distinct_same_set_small) simp_all
    then show ?thesis
      using ds(1) by (simp add: simulate_mouseMove_calls [OF neq] none)
  qed
  from none hov clear len emit show ?thesis by blast
qed

text \<open>
  Moving from \<^verbatim>\<open>Button1\<close> to \<open>(5, 5)\<close>, outside the three buttons: the hovered
  reference and the flag are cleared with the single call
  \<^verbatim>\<open>Button1.setSelectionStatus(False)\<close>.
\<close>

theorem move_outside_all_buttons_witness:
  "buttons hovering_hotbox = [1, 2, 3] \<and>
   \<not> button_under hovering_hotbox \<lparr>pt_x = 5, pt_y = 5\<rparr> 1 \<and>
   \<not> button_under hovering_hotbox \<lparr>pt_x = 5, pt_y = 5\<rparr> 2 \<and>
   \<not> button_under hovering_hotbox \<lparr>pt_x = 5, pt_y = 5\<rparr> 3 \<and>
   single_selection hovering_hotbox \<and>
   hoveredButton (simulate_mouseMove hovering_hotbox \<lparr>pt_x = 5, pt_y = 5\<rparr>) = None \<and>
   selected_buttons (simulate_mouseMove hovering_hotbox \<lparr>pt_x = 5, pt_y = 5\<rparr>) = [] \<and>
   calls (simulate_mouseMove hovering_hotbox \<lparr>pt_x = 5, pt_y = 5\<rparr>) =
     [SetSelectionStatus 1 False]"
proof -
  have bs: "buttons hovering_hotbox = [1, 2, 3]"
    by (simp add: hovering_hotbox_def)
  have out: "\<not> button_under hovering_hotbox \<lparr>pt_x = 5, pt_y = 5\<rparr> 1"
    "\<not> button_under hovering_hotbox \<lparr>pt_x = 5, pt_y = 5\<rparr> 2"
    "\<not> button_under hovering_hotbox \<lparr>pt_x = 5, pt_y = 5\<rparr> 3"
    by (simp_all add: concrete_defs)
  have h: "\<forall>b \<in> set (buttons hovering_hotbox).
      \<not> button_under hovering_hotbox \<lparr>pt_x = 5, pt_y = 5\<rparr> b"
    using out by (simp add: bs)
  have sel: "selected_buttons hovering_hotbox = [1]"
    by (simp add: selected_buttons_def concrete_defs)
  have inv: "single_selection hovering_hotbox"
    by (simp add: single_selection_def sel) (simp add: hovering_hotbox_def)
  have "calls hovering_hotbox = []"
    by (simp add: hovering_hotbox_def)
  with bs out inv sel move_outside_all_buttons [OF h] show ?thesis
    by simp
qed

text \<open>
  C7 as stated fails where the invariant does not hold on entry and there is no hovered
  reference: with the flag of \<^verbatim>\<open>Button1\<close> set from outside, a move to \<open>(5, 5)\<close>,
  which is under none of the three buttons, finds \<open>None\<close>, equal to the hovered
  reference, and takes the branch that changes nothing; the flag stays set.
\<close>

theorem stale_flag_survives_move_outside:
  "\<not> button_under drifted_hotbox \<lparr>pt_x = 5, pt_y = 5\<rparr> 1 \<and>
   \<not> button_under drifted_hotbox \<lparr>pt_x = 5, pt_y = 5\<rparr> 2 \<and>
   \<not> button_under drifted_hotbox \<lparr>pt_x = 5, pt_y = 5\<rparr> 3 \<and>
   buttons drifted_hotbox = [1, 2, 3] \<and>
   selected (objs drifted_hotbox 1) \<and>
   selected (objs (simulate_mouseMove drifted_hotbox \<lparr>pt_x = 5, pt_y = 5\<rparr>) 1) \<and>
   selected_buttons (simulate_mouseMove drifted_hotbox \<lparr>pt_x = 5, pt_y = 5\<rparr>) = [1]"
  by (simp add: button_under_def contains_def rect_def mapFrom_def drifted_hotbox_def
      rapid_objs_def MockButton_init_def simulate_mouseMove_def findButtonAtPosition_def
      isinstance_MockButton_def selected_buttons_def)

end
